theory Spec2Isabelle
  imports Main
begin

section \<open>Errors and options\<close>

text \<open>
  A thrown JavaScript value. \<open>Error msg\<close> is \<open>new Error(msg)\<close>, \<open>SyntaxError\<close> is what
  \<open>JSON.parse\<close> throws, \<open>TypeError\<close> is what a call on \<open>undefined\<close> throws, \<open>Thrown\<close> is
  anything an action implementation throws itself.
\<close>

datatype error = Error string | SyntaxError string | TypeError string | Thrown string

text \<open>
  \<open>StoreOptions\<close> of \<open>types.ts\<close>: both fields are optional. \<open>instanceMaxCount\<close> is a
  JavaScript number; the model takes integer counts.
\<close>

record StoreOptions =
  name :: "string option"
  instanceMaxCount :: "int option"

definition META_KEY :: string where
  "META_KEY = ''__THY_META__''"

definition MAX_SAFE_INTEGER :: int where
  "MAX_SAFE_INTEGER = 9007199254740991"

section \<open>Instance ids\<close>

text \<open>Decimal rendering of a number inside a template literal.\<close>

fun show_nat :: "nat \<Rightarrow> string" where
  "show_nat n =
     (if n < 10 then [''0123456789'' ! n]
      else show_nat (n div 10) @ [''0123456789'' ! (n mod 10)])"

definition show_int :: "int \<Rightarrow> string" where
  "show_int i = (if i < 0 then ''-'' @ show_nat (nat (- i)) else show_nat (nat i))"

text \<open>
  \<open>getInstanceMaxCount\<close>: \<open>this.storeOptions && this.storeOptions.instanceMaxCount\<close> is
  \<open>undefined\<close> when there are no options or no such field, and then \<open>isNumber\<close> fails.
\<close>

definition getInstanceMaxCount :: "StoreOptions option \<Rightarrow> int" where
  "getInstanceMaxCount storeOptions =
     (case (case storeOptions of None \<Rightarrow> None | Some opts \<Rightarrow> instanceMaxCount opts) of
        Some n \<Rightarrow> (if n \<le> 0 then MAX_SAFE_INTEGER else n)
      | None \<Rightarrow> 20)"

text \<open>
  \<open>setName\<close>: \<open>(options && options.name) || constructor name\<close>; an empty name is falsy.
  The constructor's name is a parameter.
\<close>

definition setName :: "StoreOptions option \<Rightarrow> string \<Rightarrow> string" where
  "setName storeOptions className =
     (case (case storeOptions of None \<Rightarrow> None | Some opts \<Rightarrow> name opts) of
        Some n \<Rightarrow> (if n = [] then className else n)
      | None \<Rightarrow> className)"

text \<open>
  The registry of \<open>InternalStoreFactory\<close> is read through \<open>get\<close> only, and only for
  truthiness: it is the set of ids that have a live instance.
\<close>

type_synonym store_instances = "string set"

definition suffixed :: "string \<Rightarrow> int \<Rightarrow> string" where
  "suffixed nm i = nm @ ''-'' @ show_int i"

text \<open>
  The \<open>for\<close> loop of \<open>createStoreInstanceId\<close>, entered at \<open>i\<close>: the value of \<open>j\<close> after
  it, which stays \<open>0\<close> when no \<open>i \<le> instanceMaxCount - 1\<close> is free.
\<close>

function scan_suffix :: "store_instances \<Rightarrow> string \<Rightarrow> int \<Rightarrow> int \<Rightarrow> int" where
  "scan_suffix instances nm maxCount i =
     (if i \<le> maxCount - 1
      then (if suffixed nm i \<notin> instances then i
            else scan_suffix instances nm maxCount (i + 1))
      else 0)"
  by pat_completeness auto
termination
  by (relation "measure (\<lambda>(instances, nm, maxCount, i). nat (maxCount - i))") auto

definition createStoreInstanceId ::
  "bool \<Rightarrow> store_instances \<Rightarrow> StoreOptions option \<Rightarrow> string \<Rightarrow> error + string" where
  "createStoreInstanceId isDevMode instances storeOptions nm =
     (let maxCount = getInstanceMaxCount storeOptions in
      if nm \<notin> instances then Inr nm
      else
        let j = scan_suffix instances nm maxCount 1 in
        if j = 0 \<and> isDevMode
        then Inl (Error (''store '' @ [CHR 0x27] @ nm @ [CHR 0x27] @ '' created more than ''
                         @ show_int maxCount @ '', please check it.''))
        else Inr (suffixed nm j))"

section \<open>JavaScript values\<close>

text \<open>
  Primitives compare by value, objects, arrays and functions by identity, so each of
  these carries the reference it was allocated at. Numbers are the integers and \<open>NaN\<close>.
  An object is the list of its own enumerable properties in insertion order; a function
  value is opaque.
\<close>

type_synonym ref = nat

datatype jsval =
    JUndefined
  | JNull
  | JBool bool
  | JNum int
  | JNaN
  | JStr string
  | JArr ref "jsval list"
  | JObj ref "(string \<times> jsval) list"
  | JFun ref

text \<open>The operator \<open>===\<close>.\<close>

definition strict_equals :: "jsval \<Rightarrow> jsval \<Rightarrow> bool" where
  "strict_equals a b =
     (case a of
        JNaN \<Rightarrow> False
      | JArr r xs \<Rightarrow> (case b of JArr r' ys \<Rightarrow> r = r' | _ \<Rightarrow> False)
      | JObj r ps \<Rightarrow> (case b of JObj r' qs \<Rightarrow> r = r' | _ \<Rightarrow> False)
      | JFun r \<Rightarrow> (case b of JFun r' \<Rightarrow> r = r' | _ \<Rightarrow> False)
      | _ \<Rightarrow> a = b)"

text \<open>
  Value equality looks through the references: two values are deep-equal when they
  agree after every reference is erased.
\<close>

fun erase_refs :: "jsval \<Rightarrow> jsval" where
  "erase_refs (JArr r xs) = JArr 0 (map erase_refs xs)"
| "erase_refs (JObj r ps) = JObj 0 (map (\<lambda>p. (fst p, erase_refs (snd p))) ps)"
| "erase_refs (JFun r) = JFun 0"
| "erase_refs v = v"

definition deep_equal :: "jsval \<Rightarrow> jsval \<Rightarrow> bool" where
  "deep_equal a b = (erase_refs a = erase_refs b)"

text \<open>\<open>CreateDataProperty\<close>: overwrite the property in place, or add it at the end.\<close>

fun define_prop :: "string \<Rightarrow> jsval \<Rightarrow> (string \<times> jsval) list \<Rightarrow> (string \<times> jsval) list" where
  "define_prop k v [] = [(k, v)]"
| "define_prop k v (p # ps) = (if fst p = k then (k, v) # ps else p # define_prop k v ps)"

text \<open>\<open>CopyDataProperties\<close>: define each property of the source, in order, on the target.\<close>

definition copy_props ::
  "(string \<times> jsval) list \<Rightarrow> (string \<times> jsval) list \<Rightarrow> (string \<times> jsval) list" where
  "copy_props src target = fold (\<lambda>p. define_prop (fst p) (snd p)) src target"

text \<open>
  The properties a spread \<open>...v\<close> copies: those of an object, the indices of an array or
  a string, none of any other value.
\<close>

definition own_props :: "jsval \<Rightarrow> (string \<times> jsval) list" where
  "own_props v =
     (case v of
        JObj r ps \<Rightarrow> ps
      | JArr r xs \<Rightarrow> zip (map show_nat [0..<length xs]) xs
      | JStr s \<Rightarrow> zip (map show_nat [0..<length s]) (map (\<lambda>c. JStr [c]) s)
      | _ \<Rightarrow> [])"

text \<open>
  A JavaScript object has each key once. The lists this model builds keep that; for a
  value that comes from outside it is an assumption on the input.
\<close>

definition unique_keys :: "jsval \<Rightarrow> bool" where
  "unique_keys v = distinct (map fst (own_props v))"

text \<open>The object literal \<open>{...a, ...b}\<close>, allocated at \<open>r\<close>.\<close>

definition spread :: "ref \<Rightarrow> jsval \<Rightarrow> jsval \<Rightarrow> jsval" where
  "spread r a b = JObj r (copy_props (own_props b) (copy_props (own_props a) []))"

section \<open>The JSON round trip\<close>

datatype json =
    JsNull
  | JsBool bool
  | JsNum int
  | JsStr string
  | JsArr "json list"
  | JsObj "(string \<times> json) list"

text \<open>
  The replacer of \<open>cloneInitialState\<close>; it does not look at the key, which is left out.
\<close>

definition replacer :: "jsval \<Rightarrow> jsval" where
  "replacer v = (if v = JUndefined then JNull else v)"

text \<open>
  \<open>JSON.stringify\<close> below the replacer: \<open>None\<close> is the result \<open>undefined\<close>, which drops a
  property of an object and becomes \<open>null\<close> in an array. Every property value and every
  element goes through the replacer first.
\<close>

function serialize :: "jsval \<Rightarrow> json option"
  and serialize_elems :: "jsval list \<Rightarrow> json list"
  and serialize_props :: "(string \<times> jsval) list \<Rightarrow> (string \<times> json) list" where
  "serialize JUndefined = None"
| "serialize JNull = Some JsNull"
| "serialize (JBool b) = Some (JsBool b)"
| "serialize (JNum n) = Some (JsNum n)"
| "serialize JNaN = Some JsNull"
| "serialize (JStr s) = Some (JsStr s)"
| "serialize (JArr r xs) = Some (JsArr (serialize_elems xs))"
| "serialize (JObj r ps) = Some (JsObj (serialize_props ps))"
| "serialize (JFun r) = None"
| "serialize_elems [] = []"
| "serialize_elems (x # xs) =
     (case serialize (replacer x) of None \<Rightarrow> JsNull | Some j \<Rightarrow> j) # serialize_elems xs"
| "serialize_props [] = []"
| "serialize_props (p # ps) =
     (case serialize (replacer (snd p)) of
        None \<Rightarrow> serialize_props ps
      | Some j \<Rightarrow> (fst p, j) # serialize_props ps)"
  by pat_completeness auto
termination
  apply (relation "measure (\<lambda>x. case x of
      Inl v \<Rightarrow> size v
    | Inr (Inl xs) \<Rightarrow> size_list size xs
    | Inr (Inr ps) \<Rightarrow> size_list (\<lambda>p. size (snd p)) ps)")
      apply (auto simp: replacer_def size_list_conv_sum_list)
  subgoal for ps
    by (induction ps) auto
  done

text \<open>
  \<open>JSON.parse\<close>: every array and object of the text is a new allocation; the second
  component is the next unused reference. A repeated key overwrites.
\<close>

fun parse :: "json \<Rightarrow> ref \<Rightarrow> jsval \<times> ref"
  and parse_elems :: "json list \<Rightarrow> ref \<Rightarrow> jsval list \<times> ref"
  and parse_members ::
    "(string \<times> json) list \<Rightarrow> (string \<times> jsval) list \<Rightarrow> ref \<Rightarrow> (string \<times> jsval) list \<times> ref" where
  "parse JsNull h = (JNull, h)"
| "parse (JsBool b) h = (JBool b, h)"
| "parse (JsNum n) h = (JNum n, h)"
| "parse (JsStr s) h = (JStr s, h)"
| "parse (JsArr xs) h = (case parse_elems xs (Suc h) of (vs, h') \<Rightarrow> (JArr h vs, h'))"
| "parse (JsObj ms) h = (case parse_members ms [] (Suc h) of (ps, h') \<Rightarrow> (JObj h ps, h'))"
| "parse_elems [] h = ([], h)"
| "parse_elems (x # xs) h =
     (case parse x h of (v, h1) \<Rightarrow>
        (case parse_elems xs h1 of (vs, h2) \<Rightarrow> (v # vs, h2)))"
| "parse_members [] acc h = (acc, h)"
| "parse_members (m # ms) acc h =
     (case parse (snd m) h of (v, h1) \<Rightarrow> parse_members ms (define_prop (fst m) v acc) h1)"

text \<open>
  \<open>cloneInitialState\<close>: \<open>JSON.parse(JSON.stringify(initialState, replacer))\<close>. When
  \<open>stringify\<close> returns \<open>undefined\<close> (the state is a function), \<open>parse\<close> throws.
\<close>

definition cloneInitialState :: "jsval \<Rightarrow> ref \<Rightarrow> error + jsval \<times> ref" where
  "cloneInitialState initialState h =
     (case serialize (replacer initialState) of
        None \<Rightarrow> Inl (SyntaxError ''Unexpected token u in JSON at position 0'')
      | Some text \<Rightarrow> Inr (parse text h))"



section \<open>The store\<close>

text \<open>
  \<open>state$\<close> is a \<open>BehaviorSubject\<close>: it holds the current value and hands every value
  passed to \<open>next\<close> to its subscribers. \<open>nexted\<close> records those values, oldest first.
\<close>

record BehaviorSubject =
  subject_value :: jsval
  nexted :: "jsval list"

text \<open>
  The fields of \<open>Store\<close>. \<open>heap\<close> is not a field of the class: it is the next unused
  reference of the runtime, kept here so that the allocations of the store's methods
  are explicit.
\<close>

record Store =
  storeOptions :: "StoreOptions option"
  storeName :: string
  defaultStoreInstanceId :: string
  initialStateCache :: jsval
  state_subject :: BehaviorSubject
  heap :: ref

definition snapshot :: "Store \<Rightarrow> jsval" where
  "snapshot st = subject_value (state_subject st)"

definition store_next :: "jsval \<Rightarrow> Store \<Rightarrow> Store" where
  "store_next v st =
     st\<lparr>state_subject :=
          \<lparr>subject_value = v, nexted = nexted (state_subject st) @ [v]\<rparr>\<rparr>"

text \<open>
  The argument of \<open>setState\<close>: a partial state, or a function from the snapshot to one
  (the case \<open>isFunction\<close> selects).
\<close>

datatype setter = Partial jsval | StateFn "jsval \<Rightarrow> jsval"

definition setState :: "setter \<Rightarrow> Store \<Rightarrow> Store" where
  "setState fn st =
     (case fn of
        StateFn f \<Rightarrow>
          store_next (spread (heap st) (snapshot st) (f (snapshot st)))
            (st\<lparr>heap := Suc (heap st)\<rparr>)
      | Partial p \<Rightarrow>
          store_next (spread (heap st) (snapshot st) p) (st\<lparr>heap := Suc (heap st)\<rparr>))"

definition getState :: "Store \<Rightarrow> jsval" where
  "getState st = snapshot st"

text \<open>The body of the action \<open>clearState\<close>.\<close>

definition clearState :: "Store \<Rightarrow> Store" where
  "clearState st = setState (Partial (initialStateCache st)) st"


text \<open>
  The constructor, in the order of the source: options, name, instance id (which may
  throw), the subject, the cache (which may throw), registration. The class name, the
  mode and the registry are parameters; the result carries the registry after
  \<open>register\<close>.

  Modelled from the spec: \<open>InternalStoreFactory.register\<close> is not in the sources; it
  enters the store under its instance id, visible to every later \<open>get\<close>. The \<open>INIT\<close>
  dispatch that ends the constructor changes no state and its result is discarded.
\<close>

definition new_Store ::
  "bool \<Rightarrow> store_instances \<Rightarrow> string \<Rightarrow> ref \<Rightarrow> jsval \<Rightarrow> StoreOptions option
     \<Rightarrow> error + Store \<times> store_instances" where
  "new_Store isDevMode instances className h initialState options =
     (let nm = setName options className in
      case createStoreInstanceId isDevMode instances options nm of
        Inl e \<Rightarrow> Inl e
      | Inr sid \<Rightarrow>
          (case cloneInitialState initialState h of
             Inl e \<Rightarrow> Inl e
           | Inr (cache, h') \<Rightarrow>
               Inr (\<lparr>storeOptions = options, storeName = nm, defaultStoreInstanceId = sid,
                     initialStateCache = cache,
                     state_subject = \<lparr>subject_value = initialState, nexted = []\<rparr>,
                     heap = h'\<rparr>,
                    insert sid instances)))"

text \<open>
  The store that the constructor returns for the class \<open>CounterStore\<close>, the initial
  state \<open>{a: 0, b: 2}\<close> allocated at \<open>1\<close>, no options, an empty registry and the next
  unused reference \<open>10\<close>; the examples start from it.
\<close>

definition example_store :: Store where
  "example_store =
     \<lparr>storeOptions = None, storeName = ''CounterStore'',
      defaultStoreInstanceId = ''CounterStore'',
      initialStateCache = JObj 10 [(''a'', JNum 0), (''b'', JNum 2)],
      state_subject = \<lparr>subject_value = JObj 1 [(''a'', JNum 0), (''b'', JNum 2)], nexted = []\<rparr>,
      heap = 11\<rparr>"

text \<open>The calls a client makes on a live store that change its state.\<close>

datatype store_call = Next jsval | SetState setter | ClearState

fun call :: "store_call \<Rightarrow> Store \<Rightarrow> Store" where
  "call (Next v) st = store_next v st"
| "call (SetState fn) st = setState fn st"
| "call ClearState st = clearState st"

definition run :: "store_call list \<Rightarrow> Store \<Rightarrow> Store" where
  "run calls st = fold call calls st"

section \<open>Selectors\<close>

text \<open>
  An observable is described by what it delivers to one subscriber. A subscriber that
  subscribed to \<open>state$\<close> when the store was \<open>st0\<close> has received, when the store is
  \<open>st\<close>, the value current at \<open>st0\<close> and every value passed to \<open>next\<close> since.
\<close>

definition delivered :: "Store \<Rightarrow> Store \<Rightarrow> jsval list" where
  "delivered st0 st =
     snapshot st0 # drop (length (nexted (state_subject st0))) (nexted (state_subject st))"

text \<open>
  \<open>distinctUntilChanged()\<close> with its default comparator \<open>===\<close>: the first value passes,
  a later one passes when it is not \<open>===\<close> to the last value passed.
\<close>

fun distinct_from :: "jsval \<Rightarrow> jsval list \<Rightarrow> jsval list" where
  "distinct_from previous [] = []"
| "distinct_from previous (x # xs) =
     (if strict_equals previous x then distinct_from previous xs
      else x # distinct_from x xs)"

fun distinctUntilChanged :: "jsval list \<Rightarrow> jsval list" where
  "distinctUntilChanged [] = []"
| "distinctUntilChanged (x # xs) = x # distinct_from x xs"

text \<open>\<open>select\<close>: \<open>state$.pipe(map(selector), distinctUntilChanged())\<close>.\<close>

definition select :: "(jsval \<Rightarrow> jsval) \<Rightarrow> jsval list \<Rightarrow> jsval list" where
  "select selector source = distinctUntilChanged (map selector source)"

text \<open>
  Reading an own property: \<open>undefined\<close> when the value has none of that name. It is the
  selector \<open>s => s[k]\<close> for a key \<open>k\<close> that no prototype defines.
\<close>

definition get_prop :: "string \<Rightarrow> jsval \<Rightarrow> jsval" where
  "get_prop k v = (case map_of (own_props v) k of None \<Rightarrow> JUndefined | Some w \<Rightarrow> w)"

section \<open>Dispatch\<close>

text \<open>
  What an observable delivers: its values, and whether it then completed, failed or
  stays open.
\<close>

datatype completion = Open | Completed | Failed error

record Observable =
  emissions :: "jsval list"
  ending :: completion

datatype promise = Fulfilled jsval | Rejected error | Pending

text \<open>What an action implementation returns.\<close>

datatype action_result = Plain jsval | APromise promise | AnObservable Observable

text \<open>
  An implementation is called with the store as \<open>this\<close>, the snapshot and the payload;
  it returns or throws, and either way leaves the store as it changed it.
\<close>

type_synonym action_fn = "jsval \<Rightarrow> jsval \<Rightarrow> Store \<Rightarrow> (error + action_result) \<times> Store"

text \<open>
  \<open>StoreMetaInfo\<close>: only \<open>actions\<close> is read by the store, each entry for its
  \<open>originalFn\<close>; the field holds the entries of its own that the object has. The
  metadata hangs off the class, not the instance, so it is an argument of dispatch; \<open>None\<close> is a store without the property \<open>META_KEY\<close>.
\<close>

record StoreMetaInfo =
  actions :: "string \<rightharpoonup> action_fn"

record Action =
  action_type :: string
  payload :: jsval

definition rx_from :: "promise \<Rightarrow> Observable" where
  "rx_from p =
     (case p of
        Fulfilled v \<Rightarrow> \<lparr>emissions = [v], ending = Completed\<rparr>
      | Rejected e \<Rightarrow> \<lparr>emissions = [], ending = Failed e\<rparr>
      | Pending \<Rightarrow> \<lparr>emissions = [], ending = Open\<rparr>)"

definition rx_map :: "(jsval \<Rightarrow> jsval) \<Rightarrow> Observable \<Rightarrow> Observable" where
  "rx_map f obs = obs\<lparr>emissions := map f (emissions obs)\<rparr>"

text \<open>\<open>shareReplay()\<close> runs the source once and replays it: a subscriber sees the same.\<close>

definition shareReplay :: "Observable \<Rightarrow> Observable" where
  "shareReplay obs = obs"

text \<open>
  \<open>meta.actions\<close> is a plain object (\<open>actions: {}\<close> in \<open>findAndCreateStoreMetadata\<close>), so
  \<open>meta.actions[name]\<close> also finds what \<open>Object.prototype\<close> defines under \<open>name\<close>. These
  are the names it defines; each of them yields a truthy value (a function, or the
  prototype itself for \<open>__proto__\<close>) that has no \<open>originalFn\<close>.
\<close>

definition Object_prototype_keys :: "string list" where
  "Object_prototype_keys =
     [''constructor'', ''__defineGetter__'', ''__defineSetter__'', ''hasOwnProperty'',
      ''__lookupGetter__'', ''__lookupSetter__'', ''isPrototypeOf'', ''propertyIsEnumerable'',
      ''toString'', ''valueOf'', ''__proto__'', ''toLocaleString'']"

text \<open>
  \<open>_dispatch\<close>. The two checks throw before anything else happens. A name without an
  entry of its own that \<open>Object.prototype\<close> defines passes the second check, and then
  \<open>actionMeta.originalFn.call\<close> is a call on \<open>undefined\<close>. A result that is not an
  observable (after a promise is converted) is replaced by an observable whose
  subscriber function calls \<open>observer.next({})\<close> and nothing else; the empty object is
  allocated when \<open>dispatch\<close> subscribes, directly after.
\<close>

definition private_dispatch ::
  "StoreMetaInfo option \<Rightarrow> Action \<Rightarrow> Store \<Rightarrow> (error + Observable) \<times> Store" where
  "private_dispatch meta action st =
     (case meta of
        None \<Rightarrow> (Inl (Error (META_KEY @ '' is not found, current store has not action'')), st)
      | Some m \<Rightarrow>
          (case actions m (action_type action) of
             None \<Rightarrow>
               (if action_type action \<in> set Object_prototype_keys
                then (Inl (TypeError (''Cannot read properties of undefined (reading ''
                                      @ [CHR 0x27] @ ''call'' @ [CHR 0x27] @ '')'')), st)
                else (Inl (Error (action_type action @ '' is not found'')), st))
           | Some originalFn \<Rightarrow>
               (case originalFn (snapshot st) (payload action) st of
                  (Inl e, st') \<Rightarrow> (Inl e, st')
                | (Inr result, st') \<Rightarrow>
                    (case (case result of APromise p \<Rightarrow> AnObservable (rx_from p) | _ \<Rightarrow> result) of
                       AnObservable obs \<Rightarrow> (Inr (shareReplay (rx_map (\<lambda>r. r) obs)), st')
                     | _ \<Rightarrow>
                         (Inr (shareReplay \<lparr>emissions = [JObj (heap st') []], ending = Open\<rparr>),
                          st'\<lparr>heap := Suc (heap st')\<rparr>)))))"

definition dispatch ::
  "StoreMetaInfo option \<Rightarrow> string \<Rightarrow> jsval \<Rightarrow> Store \<Rightarrow> (error + Observable) \<times> Store" where
  "dispatch meta ty pl st = private_dispatch meta \<lparr>action_type = ty, payload = pl\<rparr> st"

text \<open>
  Two implementations and the metadata that registers them, for the examples: one
  returns the plain value \<open>5\<close>, one throws.
\<close>

definition returns_five :: action_fn where
  "returns_five s p st = (Inr (Plain (JNum 5)), st)"

definition throws_boom :: action_fn where
  "throws_boom s p st = (Inl (Thrown ''boom''), st)"

definition example_meta :: StoreMetaInfo where
  "example_meta = \<lparr>actions = [''five'' \<mapsto> returns_five, ''boom'' \<mapsto> throws_boom]\<rparr>"

section \<open>Instance ids: the allocation\<close>

declare scan_suffix.simps [simp del]

lemma scan_suffix_first:
  "i0 \<le> i \<Longrightarrow> i \<le> maxCount - 1 \<Longrightarrow> suffixed nm i \<notin> instances \<Longrightarrow>
   (\<forall>k. i0 \<le> k \<and> k < i \<longrightarrow> suffixed nm k \<in> instances) \<Longrightarrow>
   scan_suffix instances nm maxCount i0 = i"
proof (induction instances nm maxCount i0 rule: scan_suffix.induct)
  case (1 instances nm maxCount i0)
  show ?case
  proof (cases "i0 = i")
    case True
    with "1.prems" show ?thesis
      by (simp add: scan_suffix.simps [of instances nm maxCount i])
  next
    case False
    with "1.prems" have lt: "i0 < i" by simp
    with "1.prems" have occ: "suffixed nm i0 \<in> instances" by simp
    have "scan_suffix instances nm maxCount (i0 + 1) = i"
      using "1.IH" "1.prems" lt occ by simp
    with "1.prems" lt occ show ?thesis
      by (simp add: scan_suffix.simps [of instances nm maxCount i0])
  qed
qed



text \<open>
  Claim C8. The cap that \<open>createStoreInstanceId\<close> reads through \<open>getInstanceMaxCount\<close>
  is the configured \<open>instanceMaxCount\<close> when that is positive,
  \<open>Number.MAX_SAFE_INTEGER = 2^53 - 1\<close> when it is \<open>0\<close>, and \<open>20\<close> when no
  \<open>instanceMaxCount\<close> is configured (no such field, or no options at all).
\<close>

theorem getInstanceMaxCount_effective:
  "(\<forall>n. instanceMaxCount opts = Some n \<and> 0 < n \<longrightarrow> getInstanceMaxCount (Some opts) = n) \<and>
   (instanceMaxCount opts = Some 0 \<longrightarrow>
      getInstanceMaxCount (Some opts) = MAX_SAFE_INTEGER \<and> MAX_SAFE_INTEGER = 2 ^ 53 - 1) \<and>
   (instanceMaxCount opts = None \<longrightarrow> getInstanceMaxCount (Some opts) = 20) \<and>
   getInstanceMaxCount None = 20"
  by (simp add: getInstanceMaxCount_def MAX_SAFE_INTEGER_def)

theorem getInstanceMaxCount_effective_witness:
  "getInstanceMaxCount (Some \<lparr>name = None, instanceMaxCount = Some 3\<rparr>) = 3 \<and>
   getInstanceMaxCount (Some \<lparr>name = None, instanceMaxCount = Some 0\<rparr>) = 9007199254740991 \<and>
   getInstanceMaxCount (Some \<lparr>name = Some ''X'', instanceMaxCount = None\<rparr>) = 20"
  using getInstanceMaxCount_effective [of "\<lparr>name = None, instanceMaxCount = Some 3\<rparr>"]
    getInstanceMaxCount_effective [of "\<lparr>name = None, instanceMaxCount = Some 0\<rparr>"]
    getInstanceMaxCount_effective [of "\<lparr>name = Some ''X'', instanceMaxCount = None\<rparr>"]
  by (simp add: MAX_SAFE_INTEGER_def)

text \<open>
  Claim C4, as the code has it. When no live instance is registered under the bare type
  name, the id is the bare type name, whether or not suffixed instances of the type
  are live. Otherwise, when \<open>i\<close> is the first suffix of \<open>1..instanceMaxCount - 1\<close> that no
  live instance uses, the id is the type name with the suffix \<open>i\<close>. This holds in both
  modes.
\<close>

theorem createStoreInstanceId_first_free:
  "(nm \<notin> instances \<longrightarrow> createStoreInstanceId isDevMode instances opts nm = Inr nm) \<and>
   (nm \<in> instances \<and> 1 \<le> i \<and> i \<le> getInstanceMaxCount opts - 1 \<and>
    suffixed nm i \<notin> instances \<and> (\<forall>k. 1 \<le> k \<and> k < i \<longrightarrow> suffixed nm k \<in> instances) \<longrightarrow>
      createStoreInstanceId isDevMode instances opts nm = Inr (suffixed nm i))"
proof (intro conjI impI)
  assume "nm \<notin> instances"
  then show "createStoreInstanceId isDevMode instances opts nm = Inr nm"
    by (simp add: createStoreInstanceId_def)
next
  assume a: "nm \<in> instances \<and> 1 \<le> i \<and> i \<le> getInstanceMaxCount opts - 1 \<and>
    suffixed nm i \<notin> instances \<and> (\<forall>k. 1 \<le> k \<and> k < i \<longrightarrow> suffixed nm k \<in> instances)"
  then have "scan_suffix instances nm (getInstanceMaxCount opts) 1 = i"
    by (intro scan_suffix_first) auto
  with a show "createStoreInstanceId isDevMode instances opts nm = Inr (suffixed nm i)"
    by (simp add: createStoreInstanceId_def)
qed

theorem createStoreInstanceId_first_free_witness:
  "createStoreInstanceId True {} None ''Counter'' = Inr ''Counter'' \<and>
   createStoreInstanceId True {''Counter'', ''Counter-1'', ''Counter-3''} None ''Counter''
     = Inr ''Counter-2''"
proof -
  let ?live = "{''Counter'', ''Counter-1'', ''Counter-3''}"
  have one: "suffixed ''Counter'' 1 \<in> ?live" and two: "suffixed ''Counter'' 2 \<notin> ?live"
    and res: "suffixed ''Counter'' 2 = ''Counter-2''"
    by (simp_all add: suffixed_def show_int_def)
  have "k = 1" if "1 \<le> k \<and> k < 2" for k :: int
    using that by arith
  with one have below: "\<forall>k. 1 \<le> k \<and> k < 2 \<longrightarrow> suffixed ''Counter'' k \<in> ?live"
    by metis
  have cap: "(2::int) \<le> getInstanceMaxCount None - 1"
    by (simp add: getInstanceMaxCount_def)
  have "createStoreInstanceId True {} None ''Counter'' = Inr ''Counter''"
    using createStoreInstanceId_first_free [of "''Counter''" "{}" True None 1] by simp
  moreover have "createStoreInstanceId True ?live None ''Counter'' = Inr ''Counter-2''"
    using createStoreInstanceId_first_free [of "''Counter''" ?live True None 2]
      two below cap res by simp
  ultimately show ?thesis by simp
qed

text \<open>
  The claim as the spec words it fails when the first instance is gone and a suffixed
  one is live: an instance of the type exists and the first free suffix is \<open>2\<close>, yet
  the id is the bare name.
\<close>

theorem bare_id_before_free_suffix:
  "createStoreInstanceId True {''Bare-1''} None ''Bare'' = Inr ''Bare'' \<and>
   suffixed ''Bare'' 1 \<in> {''Bare-1''} \<and>
   suffixed ''Bare'' 2 \<notin> {''Bare-1''} \<and>
   createStoreInstanceId True {''Bare-1''} None ''Bare'' \<noteq> Inr (suffixed ''Bare'' 2)"
  by (simp add: createStoreInstanceId_def suffixed_def show_int_def show_nat.simps)






section \<open>Objects: defining and copying properties\<close>

lemma map_of_define_prop: "map_of (define_prop k v ps) = (map_of ps)(k \<mapsto> v)"
  by (induction ps) (auto simp: fun_eq_iff)

lemma keys_define_prop:
  "map fst (define_prop k v ps) = (if k \<in> fst ` set ps then map fst ps else map fst ps @ [k])"
  by (induction ps) auto

lemma set_keys_define_prop: "fst ` set (define_prop k v ps) = insert k (fst ` set ps)"
proof -
  have "set (map fst (define_prop k v ps)) = insert k (set (map fst ps))"
    unfolding keys_define_prop by auto
  then show ?thesis by simp
qed

lemma define_prop_new: "k \<notin> fst ` set ps \<Longrightarrow> define_prop k v ps = ps @ [(k, v)]"
  by (induction ps) auto

lemma distinct_define_prop:
  "distinct (map fst ps) \<Longrightarrow> distinct (map fst (define_prop k v ps))"
  by (simp add: keys_define_prop)

lemma map_of_copy_props: "map_of (copy_props src target) = map_of target ++ map_of (rev src)"
  unfolding copy_props_def
proof (induction src arbitrary: target)
  case Nil
  show ?case by simp
next
  case (Cons p src)
  show ?case
    by (simp add: Cons.IH map_of_define_prop fun_eq_iff map_add_def split: option.splits)
qed

lemma distinct_copy_props:
  "distinct (map fst target) \<Longrightarrow> distinct (map fst (copy_props src target))"
  unfolding copy_props_def
  by (induction src arbitrary: target) (simp_all add: distinct_define_prop)

lemma set_keys_copy_props:
  "fst ` set (copy_props src target) = fst ` set target \<union> fst ` set src"
  unfolding copy_props_def
  by (induction src arbitrary: target) (simp_all add: set_keys_define_prop)

lemma keys_copy_props_present:
  "fst ` set src \<subseteq> fst ` set target \<Longrightarrow> map fst (copy_props src target) = map fst target"
  unfolding copy_props_def
proof (induction src arbitrary: target)
  case Nil
  show ?case by simp
next
  case (Cons p src)
  let ?t = "define_prop (fst p) (snd p) target"
  from Cons.prems have "fst ` set src \<subseteq> fst ` set ?t"
    by (auto simp: set_keys_define_prop)
  then have "map fst (fold (\<lambda>p. define_prop (fst p) (snd p)) src ?t) = map fst ?t"
    by (rule Cons.IH)
  also from Cons.prems have "map fst ?t = map fst target"
    by (simp add: keys_define_prop)
  finally show ?case by simp
qed

lemma copy_props_append:
  "distinct (map fst (target @ src)) \<Longrightarrow> copy_props src target = target @ src"
  unfolding copy_props_def
proof (induction src arbitrary: target)
  case Nil
  show ?case by simp
next
  case (Cons p src)
  from Cons.prems have "fst p \<notin> fst ` set target" by auto
  then have "define_prop (fst p) (snd p) target = target @ [p]"
    by (simp add: define_prop_new)
  moreover from Cons.prems have "distinct (map fst ((target @ [p]) @ src))" by simp
  ultimately show ?case using Cons.IH [of "target @ [p]"] by simp
qed

lemma props_eqI:
  "distinct (map fst xs) \<Longrightarrow> map fst xs = map fst ys \<Longrightarrow> map_of xs = map_of ys \<Longrightarrow> xs = ys"
proof (induction xs arbitrary: ys)
  case Nil
  then show ?case by simp
next
  case (Cons x xs)
  then obtain y ys' where ys: "ys = y # ys'" by (cases ys) auto
  with Cons.prems have k: "fst x = fst y" and ks: "map fst xs = map fst ys'" by auto
  from Cons.prems ys k have "snd x = snd y"
    by (auto simp: fun_eq_iff dest: spec [of _ "fst x"])
  with k have xy: "x = y" by (simp add: prod_eq_iff)
  have "map_of xs = map_of ys'"
  proof
    fix a
    show "map_of xs a = map_of ys' a"
    proof (cases "a = fst x")
      case True
      from Cons.prems(1) have "fst x \<notin> set (map fst xs)" by simp
      with True ks have "a \<notin> fst ` set xs" "a \<notin> fst ` set ys'"
        by (simp_all flip: set_map)
      then have "map_of xs a = None" "map_of ys' a = None"
        by (simp_all add: map_of_eq_None_iff)
      then show ?thesis by simp
    next
      case False
      with Cons.prems(3) ys xy show ?thesis
        by (auto simp: fun_eq_iff dest: spec [of _ a])
    qed
  qed
  with Cons.IH [of ys'] Cons.prems(1) ks xy ys show ?case by simp
qed

lemma copy_props_idem: 
  assumes "distinct (map fst target)"
  shows "copy_props src (copy_props src target) = copy_props src target"
proof (rule props_eqI)
  show "distinct (map fst (copy_props src (copy_props src target)))"
    using assms by (intro distinct_copy_props)
  have "fst ` set src \<subseteq> fst ` set (copy_props src target)"
    by (simp add: set_keys_copy_props)
  then show "map fst (copy_props src (copy_props src target)) = map fst (copy_props src target)"
    by (rule keys_copy_props_present)
  show "map_of (copy_props src (copy_props src target)) = map_of (copy_props src target)"
    by (simp add: map_of_copy_props fun_eq_iff map_add_def split: option.splits)
qed

lemma map_of_rev_distinct: "distinct (map fst ps) \<Longrightarrow> map_of (rev ps) = map_of ps"
proof (induction ps)
  case Nil
  show ?case by simp
next
  case (Cons p ps)
  then have "fst p \<notin> fst ` set ps" by auto
  then have "map_of ps (fst p) = None" by (simp add: map_of_eq_None_iff)
  with Cons show ?case
    by (auto simp: fun_eq_iff map_add_def split: option.splits)
qed

section \<open>Keys, indices and the state after \<open>setState\<close>\<close>

declare show_nat.simps [simp del]






lemma unique_keys_spread: "unique_keys (spread r a b)"
  by (simp add: unique_keys_def spread_def own_props_def distinct_copy_props)




lemma map_of_spread:
  assumes "unique_keys a" and "unique_keys b"
  shows "map_of (own_props (spread r a b)) = map_of (own_props a) ++ map_of (own_props b)"
proof -
  have "map_of (own_props (spread r a b)) =
      (Map.empty ++ map_of (rev (own_props a))) ++ map_of (rev (own_props b))"
    by (simp add: spread_def own_props_def map_of_copy_props)
  with assms show ?thesis
    by (simp add: unique_keys_def map_of_rev_distinct)
qed

lemma snapshot_setState:
  "snapshot (setState fn st) =
     spread (heap st) (snapshot st) (case fn of Partial p \<Rightarrow> p | StateFn f \<Rightarrow> f (snapshot st))"
  by (cases fn) (simp_all add: setState_def store_next_def snapshot_def)

lemma nexted_setState:
  "nexted (state_subject (setState fn st)) =
     nexted (state_subject st) @ [snapshot (setState fn st)]"
  by (cases fn) (simp_all add: setState_def store_next_def snapshot_def)

lemma cache_setState: "initialStateCache (setState fn st) = initialStateCache st"
  by (cases fn) (simp_all add: setState_def store_next_def)

lemma heap_setState: "heap (setState fn st) = Suc (heap st)"
  by (cases fn) (simp_all add: setState_def store_next_def)

section \<open>\<open>setState\<close>\<close>

text \<open>
  Claim C6. For a store whose snapshot \<open>s\<close> is an object, \<open>setState\<close> with a partial
  object \<open>p\<close>, or with a function that returns \<open>p\<close> on \<open>s\<close>, passes to \<open>next\<close> a new
  object that is the shallow merge of \<open>p\<close> over \<open>s\<close>: a key of \<open>p\<close> has the value it has
  in \<open>p\<close>, as a whole, and every other key has the value it has in \<open>s\<close>. That object is
  the new snapshot.
\<close>

theorem setState_shallow_merge:
  assumes "unique_keys (snapshot st)" and "unique_keys p"
    and "fn = Partial p \<or> (\<exists>f. fn = StateFn f \<and> f (snapshot st) = p)"
  shows "map_of (own_props (snapshot (setState fn st))) k =
           (case map_of (own_props p) k of
              Some v \<Rightarrow> Some v
            | None \<Rightarrow> map_of (own_props (snapshot st)) k) \<and>
         nexted (state_subject (setState fn st)) =
           nexted (state_subject st) @ [snapshot (setState fn st)] \<and>
         unique_keys (snapshot (setState fn st))"
proof -
  from assms(3) have "snapshot (setState fn st) = spread (heap st) (snapshot st) p"
    by (auto simp: snapshot_setState)
  with assms(1,2) show ?thesis
    by (simp add: map_of_spread nexted_setState unique_keys_spread map_add_def
        split: option.splits)
qed

theorem setState_shallow_merge_witness:
  "map_of (own_props (snapshot (setState (Partial (JObj 20 [(''a'', JNum 1)])) example_store)))
      ''a'' = Some (JNum 1) \<and>
   map_of (own_props (snapshot (setState (StateFn (\<lambda>s. JObj 20 [(''a'', JNum 1)])) example_store)))
      ''b'' = Some (JNum 2)"
  using setState_shallow_merge
      [of example_store "JObj 20 [(''a'', JNum 1)]" "Partial (JObj 20 [(''a'', JNum 1)])" "''a''"]
    setState_shallow_merge
      [of example_store "JObj 20 [(''a'', JNum 1)]"
          "StateFn (\<lambda>s. JObj 20 [(''a'', JNum 1)])" "''b''"]
  by (simp add: example_store_def unique_keys_def own_props_def snapshot_def)

text \<open>
  The example of the spec, and a nested object: the patch's \<open>user\<close> replaces the
  snapshot's \<open>user\<close>, whose \<open>age\<close> is gone.
\<close>

lemma setState_example:
  "snapshot (setState (Partial (JObj 20 [(''a'', JNum 1)])) example_store) =
     JObj 11 [(''a'', JNum 1), (''b'', JNum 2)]"
  by (simp add: setState_def store_next_def snapshot_def spread_def own_props_def
      copy_props_def example_store_def)

lemma setState_nested_example:
  "snapshot
     (setState (Partial (JObj 21 [(''user'', JObj 22 [(''name'', JStr ''b'')])]))
        (setState
           (Partial (JObj 20 [(''user'', JObj 23 [(''name'', JStr ''a''), (''age'', JNum 7)])]))
           example_store)) =
     JObj 12 [(''a'', JNum 0), (''b'', JNum 2), (''user'', JObj 22 [(''name'', JStr ''b'')])]"
  by (simp add: setState_def store_next_def snapshot_def spread_def own_props_def
      copy_props_def example_store_def)

section \<open>\<open>clearState\<close>\<close>



lemma cache_call: "initialStateCache (call c st) = initialStateCache st"
  by (cases c) (simp_all add: cache_setState clearState_def store_next_def)

lemma cache_run: "initialStateCache (run calls st) = initialStateCache st"
  unfolding run_def
  by (induction calls arbitrary: st) (simp_all add: cache_call)


lemma snapshot_clearState:
  "snapshot (clearState st) = spread (heap st) (snapshot st) (initialStateCache st)"
  by (simp add: clearState_def snapshot_setState)





lemma cloneInitialState_example:
  "cloneInitialState
     (JObj 1 [(''a'', JUndefined), (''xs'', JArr 2 [JUndefined, JNum 1]), (''f'', JFun 3)]) 10 =
     Inr (JObj 10 [(''a'', JNull), (''xs'', JArr 11 [JNull, JNum 1])], 12)"
  by (simp add: cloneInitialState_def replacer_def)




text \<open>
  A field of the initial state that the round trip drops is not in the cache either:
  with the initial state \<open>{a: 0, f: <function>}\<close> and no \<open>setState\<close> at all, the snapshot
  after \<open>clearState()\<close> still has \<open>f\<close>, and the cache is \<open>{a: 0}\<close>.
\<close>

lemma clearState_keeps_dropped_field:
  "new_Store True {} ''S'' 10 (JObj 1 [(''a'', JNum 0), (''f'', JFun 2)]) None =
     Inr (\<lparr>storeOptions = None, storeName = ''S'', defaultStoreInstanceId = ''S'',
           initialStateCache = JObj 10 [(''a'', JNum 0)],
           state_subject =
             \<lparr>subject_value = JObj 1 [(''a'', JNum 0), (''f'', JFun 2)], nexted = []\<rparr>,
           heap = 11\<rparr>, {''S''}) \<and>
   snapshot (clearState
     \<lparr>storeOptions = None, storeName = ''S'', defaultStoreInstanceId = ''S'',
      initialStateCache = JObj 10 [(''a'', JNum 0)],
      state_subject =
        \<lparr>subject_value = JObj 1 [(''a'', JNum 0), (''f'', JFun 2)], nexted = []\<rparr>,
      heap = 11\<rparr>) = JObj 11 [(''a'', JNum 0), (''f'', JFun 2)]"
  by (simp add: new_Store_def setName_def createStoreInstanceId_def cloneInitialState_def
      replacer_def Let_def clearState_def setState_def store_next_def snapshot_def spread_def
      own_props_def copy_props_def)

text \<open>
  Claim C10. Calling \<open>clearState\<close> twice gives a snapshot with the same properties, in
  the same order and with the same values, as calling it once; the two snapshots are
  deep-equal (each is a new object). No call on the store changes the cache that the
  constructor wrote.
\<close>

theorem clearState_idempotent:
  "own_props (snapshot (clearState (clearState st))) = own_props (snapshot (clearState st)) \<and>
   deep_equal (snapshot (clearState (clearState st))) (snapshot (clearState st)) \<and>
   initialStateCache (run calls st) = initialStateCache st"
proof -
  let ?C = "own_props (initialStateCache st)"
  let ?T = "copy_props (own_props (snapshot st)) []"
  let ?P = "copy_props ?C ?T"
  have dT: "distinct (map fst ?T)" by (simp add: distinct_copy_props)
  then have dP: "distinct (map fst ?P)" by (rule distinct_copy_props)
  have once: "snapshot (clearState st) = JObj (heap st) ?P"
    by (simp add: snapshot_clearState spread_def)
  have "initialStateCache (clearState st) = initialStateCache st"
    by (simp add: clearState_def cache_setState)
  then have "snapshot (clearState (clearState st)) =
      JObj (heap (clearState st)) (copy_props ?C (copy_props ?P []))"
    by (simp add: snapshot_clearState [of "clearState st"] once spread_def own_props_def)
  moreover from dP have "copy_props ?P [] = ?P"
    by (simp add: copy_props_append)
  moreover from dT have "copy_props ?C ?P = ?P" by (rule copy_props_idem)
  ultimately have twice: "snapshot (clearState (clearState st)) = JObj (heap (clearState st)) ?P"
    by simp
  from once twice show ?thesis
    by (simp add: own_props_def deep_equal_def cache_run)
qed

section \<open>\<open>select\<close>\<close>

lemma distinct_from_snoc:
  "distinct_from previous (xs @ [x]) =
     distinct_from previous xs @
       (if strict_equals (last (previous # distinct_from previous xs)) x then [] else [x])"
  by (induction xs arbitrary: previous) simp_all

lemma distinctUntilChanged_snoc:
  "xs \<noteq> [] \<Longrightarrow>
   distinctUntilChanged (xs @ [x]) =
     distinctUntilChanged xs @
       (if strict_equals (last (distinctUntilChanged xs)) x then [] else [x])"
  by (cases xs) (simp_all add: distinct_from_snoc)

lemma nexted_call:
  "nexted (state_subject (call c st)) = nexted (state_subject st) @ [snapshot (call c st)]"
  by (cases c) (simp_all add: nexted_setState clearState_def store_next_def snapshot_def)

lemma delivered_call:
  "length (nexted (state_subject st0)) \<le> length (nexted (state_subject st)) \<Longrightarrow>
   delivered st0 (call c st) = delivered st0 st @ [snapshot (call c st)]"
  by (simp add: delivered_def nexted_call)

text \<open>
  Claim C7, as the code has it. A subscriber of \<open>select(projection)\<close> receives the
  projection of the current snapshot at once. After that, each value the store
  publishes is projected, and the projection is emitted only when it is not \<open>===\<close> to
  the projection emitted last: primitives compare by value, objects and arrays by
  identity, and \<open>NaN\<close> is equal to nothing. So a \<open>setState\<close> that leaves the projected
  value \<open>===\<close> to the last one causes no emission.
\<close>

theorem select_strict_distinct:
  assumes "length (nexted (state_subject st0)) \<le> length (nexted (state_subject st))"
  shows "select selector (delivered st0 st0) = [selector (snapshot st0)] \<and>
         select selector (delivered st0 (call c st)) =
           select selector (delivered st0 st) @
             (if strict_equals (last (select selector (delivered st0 st)))
                   (selector (snapshot (call c st)))
              then [] else [selector (snapshot (call c st))])"
proof -
  have "delivered st0 st \<noteq> []" by (simp add: delivered_def)
  then have "map selector (delivered st0 st) \<noteq> []" by simp
  then show ?thesis
    using assms
    by (simp add: select_def delivered_call distinctUntilChanged_snoc) (simp add: delivered_def)
qed

theorem select_strict_distinct_witness:
  "select (get_prop ''a'') (delivered example_store example_store) = [JNum 0] \<and>
   select (get_prop ''a'')
     (delivered example_store (call (SetState (Partial (JObj 20 [(''b'', JNum 3)]))) example_store))
     = [JNum 0]"
  using select_strict_distinct [of example_store example_store "get_prop ''a''"
      "SetState (Partial (JObj 20 [(''b'', JNum 3)]))"]
  by (simp add: example_store_def get_prop_def own_props_def snapshot_def setState_def
      store_next_def spread_def copy_props_def strict_equals_def)

text \<open>
  The claim as the spec words it fails: two projections that are equal in value but are
  two objects are both emitted.
\<close>

theorem select_emits_equal_objects:
  "select (get_prop ''a'')
     (delivered example_store
        (run [SetState (Partial (JObj 20 [(''a'', JObj 21 [(''x'', JNum 1)])])),
              SetState (Partial (JObj 22 [(''a'', JObj 23 [(''x'', JNum 1)])]))]
           example_store))
     = [JNum 0, JObj 21 [(''x'', JNum 1)], JObj 23 [(''x'', JNum 1)]] \<and>
   deep_equal (JObj 21 [(''x'', JNum 1)]) (JObj 23 [(''x'', JNum 1)])"
  by (simp add: select_def delivered_def run_def setState_def store_next_def snapshot_def
      spread_def own_props_def copy_props_def example_store_def get_prop_def strict_equals_def
      deep_equal_def)

text \<open>A field that is \<open>NaN\<close> is emitted again whenever any field is set.\<close>

lemma select_emits_NaN_again:
  "select (get_prop ''n'')
     (delivered example_store
        (run [SetState (Partial (JObj 20 [(''n'', JNaN)])),
              SetState (Partial (JObj 21 [(''b'', JNum 3)]))]
           example_store))
     = [JUndefined, JNaN, JNaN]"
  by (simp add: select_def delivered_def run_def setState_def store_next_def snapshot_def
      spread_def own_props_def copy_props_def example_store_def get_prop_def strict_equals_def)

section \<open>Dispatch\<close>

text \<open>
  Claim C2, as the code has it. For an action that is registered: when the
  implementation returns a plain value, the result stream delivers one value, a new
  empty object and not the value returned, and stays open; an observable is passed
  through with its values and its ending unchanged; a promise is converted by \<open>from\<close>;
  and when the implementation throws, the throw leaves \<open>_dispatch\<close> and no stream is
  returned. The store is as the implementation left it.
\<close>

theorem private_dispatch_normalizes:
  assumes "actions m (action_type a) = Some originalFn"
  shows "(originalFn (snapshot st) (payload a) st = (Inr (Plain v), st') \<longrightarrow>
            private_dispatch (Some m) a st =
              (Inr \<lparr>emissions = [JObj (heap st') []], ending = Open\<rparr>,
               st'\<lparr>heap := Suc (heap st')\<rparr>)) \<and>
         (originalFn (snapshot st) (payload a) st = (Inr (AnObservable obs), st') \<longrightarrow>
            private_dispatch (Some m) a st = (Inr obs, st')) \<and>
         (originalFn (snapshot st) (payload a) st = (Inr (APromise p), st') \<longrightarrow>
            private_dispatch (Some m) a st = (Inr (rx_from p), st')) \<and>
         (originalFn (snapshot st) (payload a) st = (Inl e, st') \<longrightarrow>
            private_dispatch (Some m) a st = (Inl e, st'))"
  using assms
  by (simp add: private_dispatch_def shareReplay_def rx_map_def)

theorem private_dispatch_normalizes_witness:
  "private_dispatch (Some example_meta) \<lparr>action_type = ''boom'', payload = JNull\<rparr> example_store
     = (Inl (Thrown ''boom''), example_store) \<and>
   private_dispatch (Some example_meta) \<lparr>action_type = ''five'', payload = JNull\<rparr> example_store
     = (Inr \<lparr>emissions = [JObj (heap example_store) []], ending = Open\<rparr>,
        example_store\<lparr>heap := Suc (heap example_store)\<rparr>)"
  using private_dispatch_normalizes
    [where m = example_meta and a = "\<lparr>action_type = ''boom'', payload = JNull\<rparr>"
       and originalFn = throws_boom and st = example_store and e = "Thrown ''boom''"
       and st' = example_store]
    private_dispatch_normalizes
    [where m = example_meta and a = "\<lparr>action_type = ''five'', payload = JNull\<rparr>"
       and originalFn = returns_five and st = example_store and v = "JNum 5"
       and st' = example_store]
  by (simp add: example_meta_def throws_boom_def returns_five_def)

text \<open>
  The claim as the spec words it fails twice: the stream of an implementation that
  returns \<open>5\<close> carries \<open>{}\<close>, and an implementation that throws makes the dispatch
  throw.
\<close>

theorem private_dispatch_plain_and_throw:
  "private_dispatch (Some example_meta) \<lparr>action_type = ''five'', payload = JNull\<rparr> example_store
     = (Inr \<lparr>emissions = [JObj 11 []], ending = Open\<rparr>, example_store\<lparr>heap := 12\<rparr>) \<and>
   fst (private_dispatch (Some example_meta) \<lparr>action_type = ''five'', payload = JNull\<rparr>
          example_store) \<noteq> Inr \<lparr>emissions = [JNum 5], ending = Completed\<rparr> \<and>
   private_dispatch (Some example_meta) \<lparr>action_type = ''boom'', payload = JNull\<rparr> example_store
     = (Inl (Thrown ''boom''), example_store)"
  by (simp add: private_dispatch_def example_meta_def returns_five_def throws_boom_def
      shareReplay_def example_store_def)

text \<open>
  A name that has no entry and that \<open>Object.prototype\<close> does not define is not found:
  the dispatch throws \<open>`${type} is not found`\<close> and the store is as before.
\<close>

lemma dispatch_not_found:
  assumes "actions m ty = None" and "ty \<notin> set Object_prototype_keys"
  shows "dispatch (Some m) ty pl st = (Inl (Error (ty @ '' is not found'')), st) \<and>
         snapshot (snd (dispatch (Some m) ty pl st)) = snapshot st"
  using assms by (simp add: dispatch_def private_dispatch_def)

lemma dispatch_not_found_example:
  "dispatch (Some example_meta) ''six'' JNull example_store =
     (Inl (Error ''six is not found''), example_store)"
  using dispatch_not_found [of example_meta "''six''" JNull example_store]
  by (simp add: example_meta_def Object_prototype_keys_def)

text \<open>
  Claim C5. Dispatching a name that is not registered must throw the
  action-not-found error and leave the snapshot unchanged. The code misses the names
  that \<open>Object.prototype\<close> defines: \<open>toString\<close> is not registered in the example
  metadata, and dispatching it throws a \<open>TypeError\<close> out of the call on \<open>originalFn\<close>,
  not the error \<open>toString is not found\<close>. The store is as before.
\<close>

theorem dispatch_inherited_name:
  "actions example_meta ''toString'' = None \<and>
   dispatch (Some example_meta) ''toString'' JNull example_store =
     (Inl (TypeError (''Cannot read properties of undefined (reading ''
                      @ [CHR 0x27] @ ''call'' @ [CHR 0x27] @ '')'')), example_store) \<and>
   fst (dispatch (Some example_meta) ''toString'' JNull example_store)
     \<noteq> Inl (Error ''toString is not found'')"
  by (simp add: dispatch_def private_dispatch_def example_meta_def Object_prototype_keys_def)

lemma not_found_messages_differ:
  "META_KEY @ '' is not found, current store has not action'' \<noteq> ty @ '' is not found''"
proof
  assume "META_KEY @ '' is not found, current store has not action'' = ty @ '' is not found''"
  then have "last (META_KEY @ '' is not found, current store has not action'') =
      last (ty @ '' is not found'')"
    by (rule arg_cong)
  then show False by simp
qed

text \<open>
  Claim C9. Dispatching on a store without metadata throws the error
  \<open>__THY_META__ is not found, current store has not action\<close> out of the call, before any
  action is looked up or called; the store and its snapshot are as before. For no
  action name is this the error of an action that is not found.
\<close>

theorem dispatch_without_meta:
  "private_dispatch None a st =
     (Inl (Error ''__THY_META__ is not found, current store has not action''), st) \<and>
   snapshot (snd (private_dispatch None a st)) = snapshot st \<and>
   (\<forall>ty. fst (private_dispatch None a st) \<noteq> Inl (Error (ty @ '' is not found'')))"
  using not_found_messages_differ
  by (simp add: private_dispatch_def META_KEY_def)

end
